theory Spec2Isabelle
  imports Complex_Main
begin

section \<open>The snake game of \<^verbatim>\<open>snake-chatgpt/src/App.jsx\<close>\<close>

text \<open>
  The component \<^verbatim>\<open>SnakeGame\<close> keeps its state in React hooks. A function created during
  a render (\<^verbatim>\<open>step\<close>, \<^verbatim>\<open>onKeyDown\<close>, \<^verbatim>\<open>loop\<close>) reads the \<^verbatim>\<open>const\<close> bindings of
  that render, which never change while the function runs, and writes through the setters,
  whose effect is seen by the next render. A functional update \<^verbatim>\<open>setX((prev) => ...)\<close>
  receives the pending value instead. The model therefore passes two values of the same
  record: \<open>c\<close>, the values captured by the render that created the function, and \<open>s\<close>, the
  pending state the setters act on. A function invoked by the render of the state it acts
  on is the instance \<open>c = s\<close>. No render happens while such a function runs: the updates
  made in one callback are applied together after it.

  JavaScript numbers that hold integers (coordinates, score, best score, tick interval in
  milliseconds) are \<open>int\<close>; time stamps and \<^verbatim>\<open>Math.random()\<close> are \<open>real\<close>. This is
  exact as long as the integers stay in the safe range of a double, where \<^verbatim>\<open>String\<close>
  prints the decimal numeral.
\<close>

subsection \<open>Constants and geometry helpers\<close>

definition GRID :: int where
  "GRID = 24"

definition BASE_TICK_MS :: int where
  "BASE_TICK_MS = 120"

definition SPEEDUP_PER_FOOD :: real where
  "SPEEDUP_PER_FOOD = 98 / 100"

definition MIN_TICK_MS :: int where
  "MIN_TICK_MS = 55"

record cell =
  x :: int
  y :: int

definition clamp :: "real \<Rightarrow> real \<Rightarrow> real \<Rightarrow> real" where
  "clamp n a b = max a (min b n)"

text \<open>\<^verbatim>\<open>randInt(min, max)\<close>, with the outcome \<open>r\<close> of \<^verbatim>\<open>Math.random()\<close> as an argument.\<close>

definition randInt :: "int \<Rightarrow> int \<Rightarrow> real \<Rightarrow> int" where
  "randInt mn mx r = \<lfloor>r * real_of_int (mx - mn + 1)\<rfloor> + mn"

definition same :: "cell \<Rightarrow> cell \<Rightarrow> bool" where
  "same a b \<longleftrightarrow> x a = x b \<and> y a = y b"

definition opposite :: "cell \<Rightarrow> cell \<Rightarrow> bool" where
  "opposite a b \<longleftrightarrow> x a = - x b \<and> y a = - y b"

definition makeInitialSnake :: "cell list" where
  "makeInitialSnake =
     (let start = \<lparr>x = GRID div 2, y = GRID div 2\<rparr>
      in [\<lparr>x = x start, y = y start\<rparr>,
          \<lparr>x = x start - 1, y = y start\<rparr>,
          \<lparr>x = x start - 2, y = y start\<rparr>])"

text \<open>
  \<^verbatim>\<open>placeFood\<close> loops until a drawn cell is free. The outcomes of \<^verbatim>\<open>Math.random()\<close>
  still to come are a list; every iteration consumes two of them (\<open>x\<close> first), and the
  function returns the cell together with the outcomes left. \<open>None\<close> is the loop that has
  not returned when the outcomes are used up.
\<close>

fun placeFood :: "cell list \<Rightarrow> real list \<Rightarrow> (cell \<times> real list) option" where
  "placeFood snake (r1 # r2 # rs) =
     (let f = \<lparr>x = randInt 0 (GRID - 1) r1, y = randInt 0 (GRID - 1) r2\<rparr>
      in if \<not> list_ex (\<lambda>s. same s f) snake then Some (f, rs)
         else placeFood snake rs)"
| "placeFood snake rs = None"

subsection \<open>The state of the component\<close>

text \<open>
  The \<^verbatim>\<open>useState\<close> values, the refs \<^verbatim>\<open>lastRef\<close> and \<^verbatim>\<open>accRef\<close>, and the environment:
  the item \<^verbatim>\<open>snake_best_react\<close> of \<^verbatim>\<open>localStorage\<close> (\<open>None\<close> when absent), the
  strings passed to \<^verbatim>\<open>localStorage.setItem\<close> so far (latest first), and the outcomes
  of \<^verbatim>\<open>Math.random()\<close> still to come.
\<close>

record game =
  snake :: "cell list"
  dir :: cell
  nextDir :: cell
  food :: cell
  score :: int
  best :: int
  tickMs :: int
  paused :: bool
  gameOver :: bool
  lastRef :: real
  accRef :: real
  storage :: "string option"
  setItems :: "string list"
  rnd :: "real list"

datatype error =
  TypeError \<comment> \<open>\<^verbatim>\<open>head.x\<close> on an empty snake\<close>
| NoReturn \<comment> \<open>\<^verbatim>\<open>placeFood\<close> has not returned\<close>

subsection \<open>Best score: \<^verbatim>\<open>String\<close>, \<^verbatim>\<open>Number\<close> and the storage\<close>

definition digit_char :: "nat \<Rightarrow> char" where
  "digit_char d = ''0123456789'' ! d"

fun digits :: "nat \<Rightarrow> string" where
  "digits n = (if n < 10 then [digit_char n] else digits (n div 10) @ [digit_char (n mod 10)])"

declare digits.simps [simp del]

text \<open>\<^verbatim>\<open>String(n)\<close> on an integer.\<close>

definition String_js :: "int \<Rightarrow> string" where
  "String_js n = (if n < 0 then CHR ''-'' # digits (nat (- n)) else digits (nat n))"

definition is_digit :: "char \<Rightarrow> bool" where
  "is_digit ch \<longleftrightarrow> ch \<in> set ''0123456789''"

definition digit_val :: "char \<Rightarrow> nat" where
  "digit_val ch = of_char ch - 48"

definition decimal :: "string \<Rightarrow> nat" where
  "decimal str = foldl (\<lambda>a ch. 10 * a + digit_val ch) 0 str"

text \<open>
  \<^verbatim>\<open>Number(str)\<close> on a string: a non-empty string of decimal digits is its value. What
  \<^verbatim>\<open>Number\<close> makes of any other string is the parameter \<open>other\<close>: \<open>Some v\<close> for a finite
  value, \<open>None\<close> for \<^verbatim>\<open>NaN\<close> and the infinities.
\<close>

definition Number_js :: "(string \<Rightarrow> int option) \<Rightarrow> string \<Rightarrow> int option" where
  "Number_js other str =
     (if str \<noteq> [] \<and> list_all is_digit str then Some (int (decimal str)) else other str)"

text \<open>
  The initial value of \<^verbatim>\<open>best\<close>:
  \<^verbatim>\<open>Number(localStorage.getItem("snake_best_react") || 0)\<close>, kept when finite and 0
  otherwise. An absent item (\<^verbatim>\<open>null\<close>) and the empty string are falsy, so \<^verbatim>\<open>Number\<close>
  gets 0.
\<close>

definition initBest :: "(string \<Rightarrow> int option) \<Rightarrow> string option \<Rightarrow> int" where
  "initBest other item =
     (let v = (case item of
                 None \<Rightarrow> Some 0
               | Some str \<Rightarrow> if str = [] then Some 0 else Number_js other str)
      in case v of Some n \<Rightarrow> n | None \<Rightarrow> 0)"

definition endGame :: "int \<Rightarrow> game \<Rightarrow> game" where
  "endGame finalScore s =
     (let b = max (best s) finalScore
      in s\<lparr>gameOver := True, paused := False, best := b,
           storage := Some (String_js b), setItems := String_js b # setItems s\<rparr>)"

subsection \<open>The game step\<close>

text \<open>The local bindings of \<^verbatim>\<open>step\<close> that the properties below speak about.\<close>

definition appliedDir :: "game \<Rightarrow> cell" where
  "appliedDir c = (if \<not> opposite (nextDir c) (dir c) then nextDir c else dir c)"

text \<open>
  \<^verbatim>\<open>if (appliedDir !== dir) setDir(appliedDir)\<close>. The source compares object
  references; the model compares the values, which gives the same pending direction
  whenever the pending direction is the captured one.
\<close>

definition commitDir :: "game \<Rightarrow> game \<Rightarrow> game" where
  "commitDir c s = (if appliedDir c \<noteq> dir c then s\<lparr>dir := appliedDir c\<rparr> else s)"

definition nextHead :: "game \<Rightarrow> cell \<Rightarrow> cell" where
  "nextHead c head = \<lparr>x = x head + x (appliedDir c), y = y head + y (appliedDir c)\<rparr>"

definition wallCollision :: "cell \<Rightarrow> bool" where
  "wallCollision n \<longleftrightarrow> x n < 0 \<or> y n < 0 \<or> x n \<ge> GRID \<or> y n \<ge> GRID"

definition bodyToCheck :: "bool \<Rightarrow> cell list \<Rightarrow> cell list" where
  "bodyToCheck willEat prevSnake = (if willEat then prevSnake else butlast prevSnake)"

definition speedUp :: "int \<Rightarrow> int" where
  "speedUp t = max MIN_TICK_MS \<lfloor>real_of_int t * SPEEDUP_PER_FOOD\<rfloor>"

definition step :: "game \<Rightarrow> game \<Rightarrow> error + game" where
  "step c s =
     (if gameOver c \<or> paused c then Inr s
      else case snake s of
        [] \<Rightarrow> Inl TypeError
      | head # _ \<Rightarrow>
          let prevSnake = snake s;
              s1 = commitDir c s;
              nh = nextHead c head
          in if wallCollision nh then Inr (endGame (score c) s1)
             else
               let willEat = same nh (food c)
               in if list_ex (\<lambda>seg. same seg nh) (bodyToCheck willEat prevSnake)
                  then Inr (endGame (score c) s1)
                  else
                    let nextSnake = nh # prevSnake
                    in if willEat then
                         let s2 = s1\<lparr>score := score c + 1\<rparr>;
                             s3 = s2\<lparr>tickMs := speedUp (tickMs s2)\<rparr>
                         in case placeFood nextSnake (rnd s3) of
                              None \<Rightarrow> Inl NoReturn
                            | Some (newFood, rs) \<Rightarrow>
                                Inr (s3\<lparr>food := newFood, rnd := rs, snake := nextSnake\<rparr>)
                       else Inr (s1\<lparr>snake := butlast nextSnake\<rparr>))"

text \<open>\<open>n\<close> successive steps, each invoked by the render of the state it starts from.\<close>

fun ticks :: "nat \<Rightarrow> game \<Rightarrow> error + game" where
  "ticks 0 s = Inr s"
| "ticks (Suc n) s = (case step s s of Inl e \<Rightarrow> Inl e | Inr s' \<Rightarrow> ticks n s')"

subsection \<open>Keyboard\<close>

record keyEvent =
  code :: string
  key :: string

definition dirs :: "string \<Rightarrow> cell option" where
  "dirs k =
     (if k = ''ArrowUp'' then Some \<lparr>x = 0, y = - 1\<rparr>
      else if k = ''ArrowDown'' then Some \<lparr>x = 0, y = 1\<rparr>
      else if k = ''ArrowLeft'' then Some \<lparr>x = - 1, y = 0\<rparr>
      else if k = ''ArrowRight'' then Some \<lparr>x = 1, y = 0\<rparr>
      else if k = ''w'' then Some \<lparr>x = 0, y = - 1\<rparr>
      else if k = ''s'' then Some \<lparr>x = 0, y = 1\<rparr>
      else if k = ''a'' then Some \<lparr>x = - 1, y = 0\<rparr>
      else if k = ''d'' then Some \<lparr>x = 1, y = 0\<rparr>
      else if k = ''W'' then Some \<lparr>x = 0, y = - 1\<rparr>
      else if k = ''S'' then Some \<lparr>x = 0, y = 1\<rparr>
      else if k = ''A'' then Some \<lparr>x = - 1, y = 0\<rparr>
      else if k = ''D'' then Some \<lparr>x = 1, y = 0\<rparr>
      else None)"

definition reset :: "game \<Rightarrow> error + game" where
  "reset s =
     (let sn = makeInitialSnake
      in case placeFood sn (rnd s) of
           None \<Rightarrow> Inl NoReturn
         | Some (f, rs) \<Rightarrow>
             Inr (s\<lparr>snake := sn, dir := \<lparr>x = 1, y = 0\<rparr>, nextDir := \<lparr>x = 1, y = 0\<rparr>,
                    food := f, rnd := rs, score := 0, tickMs := BASE_TICK_MS,
                    paused := False, gameOver := False, accRef := 0\<rparr>))"

definition onKeyDown :: "game \<Rightarrow> keyEvent \<Rightarrow> game \<Rightarrow> error + game" where
  "onKeyDown c e s =
     (if code e = ''Space'' then Inr (if \<not> gameOver c then s\<lparr>paused := \<not> paused s\<rparr> else s)
      else if key e = ''r'' \<or> key e = ''R'' then reset s
      else case dirs (key e) of
             Some d \<Rightarrow> Inr (if \<not> opposite d (dir c) then s\<lparr>nextDir := d\<rparr> else s)
           | None \<Rightarrow> Inr s)"

subsection \<open>The frame loop\<close>

text \<open>
  The \<^verbatim>\<open>while\<close> statement of \<^verbatim>\<open>loop\<close>. \<^verbatim>\<open>tickMs\<close> is the binding of the render that
  registered \<^verbatim>\<open>loop\<close>, so the test and the subtraction read \<open>tickMs c\<close>. With a
  captured interval of 0 or less the statement does not return: the result is \<open>None\<close>.
\<close>

partial_function (option) whileTicks :: "game \<Rightarrow> game \<Rightarrow> (error + game) option" where
  "whileTicks c s =
     (if accRef s \<ge> real_of_int (tickMs c) then
        (case step c s of
           Inl e \<Rightarrow> Some (Inl e)
         | Inr s' \<Rightarrow> whileTicks c (s'\<lparr>accRef := accRef s' - real_of_int (tickMs c)\<rparr>))
      else Some (Inr s))"

text \<open>
  One call of \<^verbatim>\<open>loop(ts)\<close>; the registration of the next frame is not part of the
  state.
\<close>

definition loop :: "game \<Rightarrow> real \<Rightarrow> game \<Rightarrow> (error + game) option" where
  "loop c ts s =
     (let s1 = (if lastRef s = 0 then s\<lparr>lastRef := ts\<rparr> else s);
          dt = ts - lastRef s1;
          s2 = s1\<lparr>lastRef := ts\<rparr>
      in if \<not> paused c \<and> \<not> gameOver c then
           whileTicks c (s2\<lparr>accRef := clamp (accRef s2 + dt) 0 1000\<rparr>)
         else Some (Inr s2))"

subsection \<open>Mounting and the events of a run\<close>


text \<open>The \<^verbatim>\<open>onClick\<close> of the pause button: \<^verbatim>\<open>!gameOver && setPaused((p) => !p)\<close>.\<close>

definition pauseClick :: "game \<Rightarrow> game \<Rightarrow> game" where
  "pauseClick c s = (if \<not> gameOver c then s\<lparr>paused := \<not> paused s\<rparr> else s)"

text \<open>The cleanup of the frame effect, for the refs of the state.\<close>

definition cleanup :: "game \<Rightarrow> game" where
  "cleanup s = s\<lparr>lastRef := 0, accRef := 0\<rparr>"

text \<open>
  What happens to a mounted component: a key goes down, a frame is due at a time stamp,
  one of the two buttons is clicked, or the frame effect is cleaned up because a render
  found one of its dependencies changed. Every event is handled by the callbacks of the
  render of the current state. The cleanup is an event of its own, so a run may hold it
  wherever a render runs it.
\<close>

datatype event =
  KeyDown keyEvent
| Frame real
| PauseClick
| RestartClick
| Cleanup

fun handle :: "event \<Rightarrow> game \<Rightarrow> (error + game) option" where
  "handle (KeyDown e) s = Some (onKeyDown s e s)"
| "handle (Frame ts) s = loop s ts s"
| "handle PauseClick s = Some (Inr (pauseClick s s))"
| "handle RestartClick s = Some (reset s)"
| "handle Cleanup s = Some (Inr (cleanup s))"

fun run :: "event list \<Rightarrow> game \<Rightarrow> (error + game) option" where
  "run [] s = Some (Inr s)"
| "run (e # es) s =
     (case handle e s of
        Some (Inr s') \<Rightarrow> run es s'
      | r \<Rightarrow> r)"

text \<open>
  What the steps invoked by the render \<open>c\<close> have done to the best score between the
  pending states \<open>s\<close> and \<open>s'\<close> when they called \<open>endGame\<close> \<open>n\<close> times: \<open>n\<close> writes of
  the same string; with no call the best score, the storage and \<open>gameOver\<close> are as before,
  otherwise the game is over and the best score and the storage hold the larger of the
  best score before and the score of the render.
\<close>

definition bestWrites :: "nat \<Rightarrow> game \<Rightarrow> game \<Rightarrow> game \<Rightarrow> bool" where
  "bestWrites n c s s' \<longleftrightarrow>
     setItems s' = replicate n (String_js (max (best s) (score c))) @ setItems s \<and>
     (n = 0 \<longrightarrow> storage s' = storage s \<and> best s' = best s \<and> gameOver s' = gameOver s) \<and>
     (n \<noteq> 0 \<longrightarrow>
        \<not> gameOver c \<and> \<not> paused c \<and> gameOver s' \<and> best s' = max (best s) (score c) \<and>
        storage s' = Some (String_js (max (best s) (score c)))) \<and>
     (score s' = score s \<or> score s' = score c + 1)"

subsection \<open>Example states\<close>

text \<open>The state after mounting on an empty storage, with the food drawn at \<open>(20, 5)\<close>.\<close>

definition start0 :: game where
  "start0 =
     \<lparr>snake = makeInitialSnake, dir = \<lparr>x = 1, y = 0\<rparr>, nextDir = \<lparr>x = 1, y = 0\<rparr>,
      food = \<lparr>x = 20, y = 5\<rparr>, score = 0, best = initBest (\<lambda>str. None) None,
      tickMs = BASE_TICK_MS, paused = False, gameOver = False, lastRef = 0, accRef = 0,
      storage = None, setItems = [], rnd = []\<rparr>"

text \<open>
  The food is right ahead of the head, and the next two outcomes of \<^verbatim>\<open>Math.random()\<close>
  are 0; \<open>eat1\<close> is the state one step later.
\<close>

definition eat0 :: game where
  "eat0 = start0\<lparr>food := \<lparr>x = 13, y = 12\<rparr>, rnd := [0, 0]\<rparr>"

definition eat1 :: game where
  "eat1 =
     start0\<lparr>snake := [\<lparr>x = 13, y = 12\<rparr>, \<lparr>x = 12, y = 12\<rparr>, \<lparr>x = 11, y = 12\<rparr>,
                       \<lparr>x = 10, y = 12\<rparr>],
            food := \<lparr>x = 0, y = 0\<rparr>, score := 1, tickMs := 117\<rparr>"

text \<open>
  A frame 237 ms after the previous one, with the food ahead and an empty accumulator:
  \<open>frame_in\<close> is the state when \<^verbatim>\<open>loop(1237)\<close> is called, \<open>frame0\<close> the state when
  its \<^verbatim>\<open>while\<close> statement starts, \<open>frame_code\<close> the state in which the statement of
  the source ends, and \<open>frame_spec\<close> the one in which the loop of the specification ends.
\<close>

definition frame_in :: game where
  "frame_in = eat0\<lparr>lastRef := 1000\<rparr>"

definition frame0 :: game where
  "frame0 = eat0\<lparr>lastRef := 1237, accRef := 237\<rparr>"

definition frame_code :: game where
  "frame_code = eat1\<lparr>lastRef := 1237, accRef := 117\<rparr>"

definition frame_spec :: game where
  "frame_spec =
     eat1\<lparr>snake := [\<lparr>x = 14, y = 12\<rparr>, \<lparr>x = 13, y = 12\<rparr>, \<lparr>x = 12, y = 12\<rparr>,
                     \<lparr>x = 11, y = 12\<rparr>],
          lastRef := 1237, accRef := 3\<rparr>"

text \<open>The head at the right wall, moving right.\<close>

definition wall0 :: game where
  "wall0 = start0\<lparr>snake := [\<lparr>x = 23, y = 12\<rparr>, \<lparr>x = 22, y = 12\<rparr>, \<lparr>x = 21, y = 12\<rparr>]\<rparr>"

text \<open>
  A snake of four cells in a square, moving up with a turn to the right buffered: the
  next head is the cell of the tail.
\<close>

definition square0 :: game where
  "square0 =
     start0\<lparr>snake := [\<lparr>x = 5, y = 5\<rparr>, \<lparr>x = 5, y = 6\<rparr>, \<lparr>x = 6, y = 6\<rparr>, \<lparr>x = 6, y = 5\<rparr>],
            dir := \<lparr>x = 0, y = - 1\<rparr>, nextDir := \<lparr>x = 1, y = 0\<rparr>\<rparr>"

text \<open>A best score of 7 in the state and in the storage.\<close>

definition best7 :: game where
  "best7 = start0\<lparr>best := 7, storage := Some ''7''\<rparr>"

text \<open>The head at the right wall with a score of 5 and a best score of 7.\<close>

definition wall7 :: game where
  "wall7 = wall0\<lparr>score := 5, best := 7, storage := Some ''7''\<rparr>"

text \<open>
  Mounted on a storage that holds \<open>''7''\<close>, with the food drawn at \<open>(0, 0)\<close>; the state
  after the frames at 1000 and 2000 ms; and the state after the frame at 2500 ms, in
  which the snake runs into the right wall with a score of 0.
\<close>

definition mounted7 :: game where
  "mounted7 = start0\<lparr>food := \<lparr>x = 0, y = 0\<rparr>, best := 7, storage := Some ''7''\<rparr>"

definition near7 :: game where
  "near7 =
     mounted7\<lparr>snake := [\<lparr>x = 20, y = 12\<rparr>, \<lparr>x = 19, y = 12\<rparr>, \<lparr>x = 18, y = 12\<rparr>],
              lastRef := 2000, accRef := 40\<rparr>"

definition over7 :: game where
  "over7 =
     mounted7\<lparr>snake := [\<lparr>x = 23, y = 12\<rparr>, \<lparr>x = 22, y = 12\<rparr>, \<lparr>x = 21, y = 12\<rparr>],
              gameOver := True, lastRef := 2500, accRef := 60, setItems := [''7'']\<rparr>"

text \<open>Moving right with a reversal buffered, and the key event of the left arrow.\<close>

definition reversal0 :: game where
  "reversal0 = start0\<lparr>nextDir := \<lparr>x = - 1, y = 0\<rparr>\<rparr>"

definition arrowLeft :: keyEvent where
  "arrowLeft = \<lparr>code = ''ArrowLeft'', key = ''ArrowLeft''\<rparr>"

text \<open>
  The loop as the specification words it: while the accumulator is at least the current
  \<open>TickInterval\<close> and the game is not paused or over, invoke the engine once and subtract
  \<open>TickInterval\<close> from the accumulator, each iteration reading the current value.
\<close>

partial_function (option) whileTicks_spec :: "game \<Rightarrow> (error + game) option" where
  "whileTicks_spec s =
     (if accRef s \<ge> real_of_int (tickMs s) \<and> \<not> paused s \<and> \<not> gameOver s then
        (case step s s of
           Inl e \<Rightarrow> Some (Inl e)
         | Inr s' \<Rightarrow> whileTicks_spec (s'\<lparr>accRef := accRef s' - real_of_int (tickMs s')\<rparr>))
      else Some (Inr s))"

section \<open>Properties\<close>

subsection \<open>Helper lemmas\<close>

lemmas example_defs =
  start0_def eat0_def eat1_def frame_in_def frame0_def frame_code_def frame_spec_def wall0_def
  square0_def best7_def wall7_def mounted7_def near7_def over7_def reversal0_def arrowLeft_def

lemmas step_defs =
  step_def commitDir_def appliedDir_def opposite_def nextHead_def wallCollision_def
  same_def bodyToCheck_def speedUp_def endGame_def makeInitialSnake_def randInt_def
  initBest_def GRID_def MIN_TICK_MS_def SPEEDUP_PER_FOOD_def BASE_TICK_MS_def Let_def

lemma same_iff: "same a b \<longleftrightarrow> a = b"
  by (auto simp: same_def)

lemma list_ex_same: "list_ex (\<lambda>seg. same seg f) xs \<longleftrightarrow> f \<in> set xs"
  by (auto simp: list_ex_iff same_iff)

lemma placeFood_free:
  "placeFood sn rs = Some (f, rs') \<Longrightarrow> \<not> list_ex (\<lambda>seg. same seg f) sn"
  by (induction sn rs rule: placeFood.induct) (auto simp: Let_def split: if_splits)

text \<open>
  \<open>placeFood\<close> returns as soon as the outcomes hold, after an even number of them, a pair
  that gives a free cell.
\<close>

lemma placeFood_returns:
  "even (length pre) \<Longrightarrow>
   \<not> list_ex (\<lambda>seg. same seg \<lparr>x = randInt 0 (GRID - 1) r1, y = randInt 0 (GRID - 1) r2\<rparr>) sn \<Longrightarrow>
   \<exists>f rs'. placeFood sn (pre @ r1 # r2 # post) = Some (f, rs')"
  by (induction sn pre rule: placeFood.induct) (auto simp: Let_def)

lemma step_noop: "gameOver c \<or> paused c \<Longrightarrow> step c s = Inr s"
  by (simp add: step_def)

text \<open>The four ways a step of a running game ends.\<close>

lemma step_wall:
  assumes "\<not> gameOver c" and "\<not> paused c" and "snake s = head # rest"
    and "wallCollision (nextHead c head)"
  shows "step c s = Inr (endGame (score c) (commitDir c s))"
  using assms by (simp add: step_def Let_def)

lemma step_self:
  assumes "\<not> gameOver c" and "\<not> paused c" and "snake s = head # rest"
    and "\<not> wallCollision (nextHead c head)"
    and "list_ex (\<lambda>seg. same seg (nextHead c head))
           (bodyToCheck (same (nextHead c head) (food c)) (snake s))"
  shows "step c s = Inr (endGame (score c) (commitDir c s))"
  using assms by (simp add: step_def Let_def)

lemma step_eat:
  assumes "\<not> gameOver c" and "\<not> paused c" and "snake s = head # rest"
    and "\<not> wallCollision (nextHead c head)"
    and "same (nextHead c head) (food c)"
    and "\<not> list_ex (\<lambda>seg. same seg (nextHead c head)) (snake s)"
  shows "step c s =
     (case placeFood (nextHead c head # snake s) (rnd s) of
        None \<Rightarrow> Inl NoReturn
      | Some (newFood, rs) \<Rightarrow>
          Inr ((commitDir c s)\<lparr>score := score c + 1, tickMs := speedUp (tickMs s),
                 food := newFood, rnd := rs, snake := nextHead c head # snake s\<rparr>))"
  using assms
  by (simp add: step_def bodyToCheck_def commitDir_def Let_def split: option.splits)

lemma step_move:
  assumes "\<not> gameOver c" and "\<not> paused c" and "snake s = head # rest"
    and "\<not> wallCollision (nextHead c head)"
    and "\<not> same (nextHead c head) (food c)"
    and "\<not> list_ex (\<lambda>seg. same seg (nextHead c head)) (butlast (snake s))"
  shows "step c s = Inr ((commitDir c s)\<lparr>snake := nextHead c head # butlast (snake s)\<rparr>)"
  using assms
  by (simp add: step_def bodyToCheck_def commitDir_def Let_def)

lemma step_eat0: "step eat0 eat0 = Inr eat1"
  by (simp add: step_defs example_defs)

lemma step_square0:
  "step square0 square0 =
     Inr (square0\<lparr>dir := \<lparr>x = 1, y = 0\<rparr>,
            snake := [\<lparr>x = 6, y = 5\<rparr>, \<lparr>x = 5, y = 5\<rparr>, \<lparr>x = 5, y = 6\<rparr>, \<lparr>x = 6, y = 6\<rparr>]\<rparr>)"
  by (simp add: step_defs example_defs)

subsection \<open>Eating\<close>

text \<open>
  C1, as amended. When a step of a running game moves the head onto the food without a
  collision and returns, the score is the previous score plus 1 and the tick interval is
  the previous one times 0.98, rounded down to a whole number of milliseconds, and then
  raised to the floor of 55 ms if it is below; so it is never below 55 ms. The step
  returns whenever \<open>placeFood\<close> does.
\<close>

theorem eat_score_tick:
  assumes "\<not> gameOver s" and "\<not> paused s" and "snake s = head # rest"
    and "\<not> wallCollision (nextHead s head)"
    and "same (nextHead s head) (food s)"
    and "\<not> list_ex (\<lambda>seg. same seg (nextHead s head)) (snake s)"
  shows "(\<forall>s'. step s s = Inr s' \<longrightarrow>
            score s' = score s + 1 \<and>
            tickMs s' = max MIN_TICK_MS \<lfloor>real_of_int (tickMs s) * SPEEDUP_PER_FOOD\<rfloor> \<and>
            MIN_TICK_MS \<le> tickMs s' \<and> MIN_TICK_MS = 55) \<and>
         (placeFood (nextHead s head # snake s) (rnd s) \<noteq> None \<longrightarrow>
            (\<exists>s'. step s s = Inr s'))"
  unfolding step_eat [OF assms]
  by (auto simp: speedUp_def MIN_TICK_MS_def split: option.splits)

theorem eat_score_tick_witness:
  "step eat0 eat0 = Inr eat1 \<and> score eat1 = score eat0 + 1 \<and> tickMs eat0 = 120 \<and>
   tickMs eat1 = 117 \<and> MIN_TICK_MS \<le> tickMs eat1"
proof -
  have h: "\<not> gameOver eat0" "\<not> paused eat0"
    "snake eat0 = \<lparr>x = 12, y = 12\<rparr> # [\<lparr>x = 11, y = 12\<rparr>, \<lparr>x = 10, y = 12\<rparr>]"
    "\<not> wallCollision (nextHead eat0 \<lparr>x = 12, y = 12\<rparr>)"
    "same (nextHead eat0 \<lparr>x = 12, y = 12\<rparr>) (food eat0)"
    "\<not> list_ex (\<lambda>seg. same seg (nextHead eat0 \<lparr>x = 12, y = 12\<rparr>)) (snake eat0)"
    by (simp_all add: step_defs example_defs)
  from eat_score_tick [OF h] step_eat0 show ?thesis
    by (simp add: step_defs example_defs)
qed

text \<open>
  C1 as stated fails: from a tick interval of 120 ms the step that eats gives 117 ms,
  which is not \<open>max 55 (120 * 0.98) = 117.6\<close>.
\<close>

theorem eat_not_plain_scaling:
  "step eat0 eat0 = Inr eat1 \<and>
   real_of_int (tickMs eat1) \<noteq>
     max (real_of_int MIN_TICK_MS) (real_of_int (tickMs eat0) * SPEEDUP_PER_FOOD)"
  by (simp add: step_eat0) (simp add: step_defs example_defs)

subsection \<open>Self collision\<close>

text \<open>
  C2. In a step of a running game whose next head is on the board, the cells compared
  with the next head are \<open>bodyToCheck\<close>: the whole snake when the move eats, the snake
  without its last cell otherwise. The step ends the game exactly when the next head is
  one of them. In particular a move that does not eat and whose next head is the tail
  cell and no other cell of the snake moves the snake and does not end the game.
\<close>

theorem self_collision_body:
  assumes "\<not> gameOver s" and "\<not> paused s" and "snake s = head # rest"
    and "\<not> wallCollision (nextHead s head)"
  shows "(list_ex (\<lambda>seg. same seg (nextHead s head))
            (bodyToCheck (same (nextHead s head) (food s)) (snake s)) \<longrightarrow>
          step s s = Inr (endGame (score s) (commitDir s s)) \<and>
          gameOver (endGame (score s) (commitDir s s))) \<and>
         (\<not> list_ex (\<lambda>seg. same seg (nextHead s head))
            (bodyToCheck (same (nextHead s head) (food s)) (snake s)) \<longrightarrow>
          (\<forall>s'. step s s = Inr s' \<longrightarrow> \<not> gameOver s')) \<and>
         bodyToCheck True (snake s) = snake s \<and>
         bodyToCheck False (snake s) = butlast (snake s) \<and>
         (\<not> same (nextHead s head) (food s) \<and> same (last (snake s)) (nextHead s head) \<and>
          \<not> list_ex (\<lambda>seg. same seg (nextHead s head)) (butlast (snake s)) \<longrightarrow>
          step s s = Inr ((commitDir s s)\<lparr>snake := nextHead s head # butlast (snake s)\<rparr>) \<and>
          \<not> gameOver ((commitDir s s)\<lparr>snake := nextHead s head # butlast (snake s)\<rparr>))"
proof -
  have go: "\<not> gameOver (commitDir s s)"
    using assms(1) by (simp add: commitDir_def)
  have a: "list_ex (\<lambda>seg. same seg (nextHead s head))
            (bodyToCheck (same (nextHead s head) (food s)) (snake s)) \<Longrightarrow>
          step s s = Inr (endGame (score s) (commitDir s s)) \<and>
          gameOver (endGame (score s) (commitDir s s))"
    using step_self [OF assms] by (simp add: endGame_def Let_def)
  have b: "\<forall>s'. step s s = Inr s' \<longrightarrow> \<not> gameOver s'"
    if nc: "\<not> list_ex (\<lambda>seg. same seg (nextHead s head))
            (bodyToCheck (same (nextHead s head) (food s)) (snake s))"
  proof (cases "same (nextHead s head) (food s)")
    case True
    with nc have "\<not> list_ex (\<lambda>seg. same seg (nextHead s head)) (snake s)"
      by (simp add: bodyToCheck_def)
    from step_eat [OF assms True this] go show ?thesis
      by (auto split: option.splits)
  next
    case False
    with nc have "\<not> list_ex (\<lambda>seg. same seg (nextHead s head)) (butlast (snake s))"
      by (simp add: bodyToCheck_def)
    from step_move [OF assms False this] go show ?thesis
      by auto
  qed
  have c: "step s s = Inr ((commitDir s s)\<lparr>snake := nextHead s head # butlast (snake s)\<rparr>) \<and>
          \<not> gameOver ((commitDir s s)\<lparr>snake := nextHead s head # butlast (snake s)\<rparr>)"
    if "\<not> same (nextHead s head) (food s)"
      and "\<not> list_ex (\<lambda>seg. same seg (nextHead s head)) (butlast (snake s))"
    using step_move [OF assms that] go by simp
  from a b c show ?thesis
    by (simp add: bodyToCheck_def)
qed

theorem self_collision_body_witness:
  "nextHead square0 \<lparr>x = 5, y = 5\<rparr> = last (snake square0) \<and>
   step square0 square0 =
     Inr (square0\<lparr>dir := \<lparr>x = 1, y = 0\<rparr>,
            snake := [\<lparr>x = 6, y = 5\<rparr>, \<lparr>x = 5, y = 5\<rparr>, \<lparr>x = 5, y = 6\<rparr>, \<lparr>x = 6, y = 6\<rparr>]\<rparr>) \<and>
   \<not> gameOver ((commitDir square0 square0)
        \<lparr>snake := nextHead square0 \<lparr>x = 5, y = 5\<rparr> # butlast (snake square0)\<rparr>)"
proof -
  have h: "\<not> gameOver square0" "\<not> paused square0"
    "snake square0 = \<lparr>x = 5, y = 5\<rparr> # [\<lparr>x = 5, y = 6\<rparr>, \<lparr>x = 6, y = 6\<rparr>, \<lparr>x = 6, y = 5\<rparr>]"
    "\<not> wallCollision (nextHead square0 \<lparr>x = 5, y = 5\<rparr>)"
    by (simp_all add: step_defs example_defs)
  have t: "\<not> same (nextHead square0 \<lparr>x = 5, y = 5\<rparr>) (food square0) \<and>
      same (last (snake square0)) (nextHead square0 \<lparr>x = 5, y = 5\<rparr>) \<and>
      \<not> list_ex (\<lambda>seg. same seg (nextHead square0 \<lparr>x = 5, y = 5\<rparr>)) (butlast (snake square0))"
    by (simp add: step_defs example_defs)
  have n: "nextHead square0 \<lparr>x = 5, y = 5\<rparr> = last (snake square0)"
    by (simp add: step_defs example_defs)
  from self_collision_body [OF h] t n step_square0 show ?thesis
    by simp
qed

subsection \<open>Paused and finished games\<close>

text \<open>
  C8. While \<open>Paused\<close> or \<open>GameOver\<close> holds, one invocation of \<open>step\<close> returns the state it
  was given, and so does any number of repeated invocations.
\<close>

theorem step_idempotent_paused_or_over:
  "paused s \<or> gameOver s \<Longrightarrow> step s s = Inr s \<and> ticks n s = Inr s"
proof (induction n)
  case 0
  then show ?case by (auto simp: step_noop)
next
  case (Suc n)
  then show ?case by (auto simp: step_noop)
qed

theorem step_idempotent_paused_or_over_witness:
  "(paused (start0\<lparr>paused := True\<rparr>) \<or> gameOver (start0\<lparr>paused := True\<rparr>)) \<and>
   step (start0\<lparr>paused := True\<rparr>) (start0\<lparr>paused := True\<rparr>) = Inr (start0\<lparr>paused := True\<rparr>) \<and>
   ticks 3 (start0\<lparr>paused := True\<rparr>) = Inr (start0\<lparr>paused := True\<rparr>)"
proof -
  have h: "paused (start0\<lparr>paused := True\<rparr>) \<or> gameOver (start0\<lparr>paused := True\<rparr>)"
    by simp
  from step_idempotent_paused_or_over [OF h, of 3] h show ?thesis
    by simp
qed

subsection \<open>Wall collision\<close>

text \<open>
  C3. In a running game, when the head plus the direction committed for this step
  (\<open>nextHead\<close>) is off the 24 by 24 board, one invocation of \<open>step\<close> returns a state with
  \<open>GameOver\<close> set whose snake, food and score are those before the step. The example of
  the claim, the head at \<open>(23, 12)\<close> moving \<open>(1, 0)\<close>, is the witness.
\<close>

theorem wall_collision_ends_game:
  assumes "\<not> gameOver s" and "\<not> paused s" and "snake s = head # rest"
    and "wallCollision (nextHead s head)"
  shows "\<exists>s'. step s s = Inr s' \<and> gameOver s' \<and>
           snake s' = snake s \<and> food s' = food s \<and> score s' = score s"
  unfolding step_wall [OF assms]
  by (simp add: endGame_def commitDir_def Let_def)

lemma step_wall0:
  "step wall0 wall0 = Inr (wall0\<lparr>gameOver := True, storage := Some ''0'', setItems := [''0'']\<rparr>)"
  by (simp add: step_defs example_defs String_js_def digits.simps digit_char_def)

theorem wall_collision_ends_game_witness:
  "hd (snake wall0) = \<lparr>x = 23, y = 12\<rparr> \<and> dir wall0 = \<lparr>x = 1, y = 0\<rparr> \<and>
   wallCollision (nextHead wall0 \<lparr>x = 23, y = 12\<rparr>) \<and>
   step wall0 wall0 =
     Inr (wall0\<lparr>gameOver := True, storage := Some ''0'', setItems := [''0'']\<rparr>)"
proof -
  have h: "\<not> gameOver wall0" "\<not> paused wall0"
    "snake wall0 = \<lparr>x = 23, y = 12\<rparr> # [\<lparr>x = 22, y = 12\<rparr>, \<lparr>x = 21, y = 12\<rparr>]"
    "wallCollision (nextHead wall0 \<lparr>x = 23, y = 12\<rparr>)"
    by (simp_all add: step_defs example_defs)
  from wall_collision_ends_game [OF h] h step_wall0 show ?thesis
    by (simp add: example_defs)
qed

subsection \<open>Food placement\<close>

text \<open>
  C4. When a step eats and returns, the snake is the old one with the new head in front
  (the tail is kept), and the food placed by the step is none of its cells. The step
  returns as soon as the outcomes of \<^verbatim>\<open>Math.random()\<close> hold, after an even number
  of them, a pair that gives a cell off the grown snake.
\<close>

theorem food_not_on_grown_snake:
  assumes "\<not> gameOver s" and "\<not> paused s" and "snake s = head # rest"
    and "\<not> wallCollision (nextHead s head)"
    and "same (nextHead s head) (food s)"
    and "\<not> list_ex (\<lambda>seg. same seg (nextHead s head)) (snake s)"
  shows "(\<forall>s'. step s s = Inr s' \<longrightarrow>
            snake s' = nextHead s head # snake s \<and>
            \<not> list_ex (\<lambda>seg. same seg (food s')) (snake s')) \<and>
         (\<forall>pre r1 r2 post.
            rnd s = pre @ r1 # r2 # post \<and> even (length pre) \<and>
            \<not> list_ex (\<lambda>seg. same seg \<lparr>x = randInt 0 (GRID - 1) r1, y = randInt 0 (GRID - 1) r2\<rparr>)
                (nextHead s head # snake s) \<longrightarrow>
            (\<exists>s'. step s s = Inr s'))"
proof -
  have a: "snake s' = nextHead s head # snake s \<and>
      \<not> list_ex (\<lambda>seg. same seg (food s')) (snake s')" if "step s s = Inr s'" for s'
  proof (cases "placeFood (nextHead s head # snake s) (rnd s)")
    case None
    with that show ?thesis
      by (simp add: step_eat [OF assms])
  next
    case (Some p)
    obtain f rs where p: "p = (f, rs)"
      by (cases p)
    from placeFood_free Some p
    have "\<not> list_ex (\<lambda>seg. same seg f) (nextHead s head # snake s)"
      by blast
    with that Some p show ?thesis
      by (auto simp: step_eat [OF assms])
  qed
  have b: "\<exists>s'. step s s = Inr s'"
    if "rnd s = pre @ r1 # r2 # post" and "even (length pre)"
      and "\<not> list_ex (\<lambda>seg. same seg \<lparr>x = randInt 0 (GRID - 1) r1, y = randInt 0 (GRID - 1) r2\<rparr>)
                (nextHead s head # snake s)"
    for pre r1 r2 post
  proof -
    from placeFood_returns [OF that(2,3), of post] that(1)
    obtain f rs where "placeFood (nextHead s head # snake s) (rnd s) = Some (f, rs)"
      by auto
    then show ?thesis
      by (simp add: step_eat [OF assms])
  qed
  from a b show ?thesis
    by blast
qed

theorem food_not_on_grown_snake_witness:
  "step eat0 eat0 = Inr eat1 \<and> food eat1 = \<lparr>x = 0, y = 0\<rparr> \<and>
   snake eat1 = nextHead eat0 \<lparr>x = 12, y = 12\<rparr> # snake eat0 \<and>
   \<not> list_ex (\<lambda>seg. same seg (food eat1)) (snake eat1)"
proof -
  have h: "\<not> gameOver eat0" "\<not> paused eat0"
    "snake eat0 = \<lparr>x = 12, y = 12\<rparr> # [\<lparr>x = 11, y = 12\<rparr>, \<lparr>x = 10, y = 12\<rparr>]"
    "\<not> wallCollision (nextHead eat0 \<lparr>x = 12, y = 12\<rparr>)"
    "same (nextHead eat0 \<lparr>x = 12, y = 12\<rparr>) (food eat0)"
    "\<not> list_ex (\<lambda>seg. same seg (nextHead eat0 \<lparr>x = 12, y = 12\<rparr>)) (snake eat0)"
    by (simp_all add: step_defs example_defs)
  from food_not_on_grown_snake [OF h] step_eat0 show ?thesis
    by (simp add: step_defs example_defs)
qed

subsection \<open>The first step\<close>

text \<open>
  C5. From the initial snake \<open>[(12, 12), (11, 12), (10, 12)]\<close> with direction and
  buffered direction \<open>(1, 0)\<close> on the board of side 24, running, with no food at
  \<open>(13, 12)\<close>, one invocation of \<open>step\<close> changes the snake to
  \<open>[(13, 12), (12, 12), (11, 12)]\<close> and nothing else; the score is unchanged.
\<close>

theorem first_step_from_start:
  assumes "snake s = makeInitialSnake"
    and "dir s = \<lparr>x = 1, y = 0\<rparr>" and "nextDir s = \<lparr>x = 1, y = 0\<rparr>"
    and "\<not> paused s" and "\<not> gameOver s"
    and "\<not> same \<lparr>x = 13, y = 12\<rparr> (food s)"
  shows "snake s = [\<lparr>x = 12, y = 12\<rparr>, \<lparr>x = 11, y = 12\<rparr>, \<lparr>x = 10, y = 12\<rparr>] \<and> GRID = 24 \<and>
         step s s = Inr (s\<lparr>snake := [\<lparr>x = 13, y = 12\<rparr>, \<lparr>x = 12, y = 12\<rparr>, \<lparr>x = 11, y = 12\<rparr>]\<rparr>) \<and>
         score (s\<lparr>snake := [\<lparr>x = 13, y = 12\<rparr>, \<lparr>x = 12, y = 12\<rparr>, \<lparr>x = 11, y = 12\<rparr>]\<rparr>) = score s"
  using assms
  by (auto simp: step_def commitDir_def appliedDir_def opposite_def nextHead_def
      wallCollision_def same_def bodyToCheck_def makeInitialSnake_def GRID_def Let_def)

theorem first_step_from_start_witness:
  "snake start0 = [\<lparr>x = 12, y = 12\<rparr>, \<lparr>x = 11, y = 12\<rparr>, \<lparr>x = 10, y = 12\<rparr>] \<and>
   food start0 = \<lparr>x = 20, y = 5\<rparr> \<and>
   step start0 start0 =
     Inr (start0\<lparr>snake := [\<lparr>x = 13, y = 12\<rparr>, \<lparr>x = 12, y = 12\<rparr>, \<lparr>x = 11, y = 12\<rparr>]\<rparr>)"
proof -
  have h: "snake start0 = makeInitialSnake"
    "dir start0 = \<lparr>x = 1, y = 0\<rparr>" "nextDir start0 = \<lparr>x = 1, y = 0\<rparr>"
    "\<not> paused start0" "\<not> gameOver start0"
    "\<not> same \<lparr>x = 13, y = 12\<rparr> (food start0)"
    by (simp_all add: example_defs same_def)
  from first_step_from_start [OF h] show ?thesis
    by (simp add: example_defs)
qed

subsection \<open>Reversal\<close>

lemma step_dir: "step c s = Inr s' \<Longrightarrow> dir s' = dir s \<or> dir s' = appliedDir c"
  by (auto simp: step_def commitDir_def endGame_def Let_def
      split: if_splits list.splits option.splits)

text \<open>
  C6. While the direction is \<open>(1, 0)\<close>, a key whose direction is \<open>(-1, 0)\<close> is opposite
  to it and \<open>onKeyDown\<close> leaves the state as it is; the direction a following step
  applies is not \<open>(-1, 0)\<close>, whatever direction was buffered before, and the direction
  after the step is not \<open>(-1, 0)\<close>.
\<close>

theorem reversal_rejected:
  assumes "dir s = \<lparr>x = 1, y = 0\<rparr>"
    and "dirs (key e) = Some \<lparr>x = - 1, y = 0\<rparr>" and "code e \<noteq> ''Space''"
  shows "opposite \<lparr>x = - 1, y = 0\<rparr> (dir s) \<and> onKeyDown s e s = Inr s \<and>
         appliedDir s \<noteq> \<lparr>x = - 1, y = 0\<rparr> \<and>
         (\<forall>s'. step s s = Inr s' \<longrightarrow> dir s' \<noteq> \<lparr>x = - 1, y = 0\<rparr>)"
proof -
  have k: "key e \<noteq> ''r'' \<and> key e \<noteq> ''R''"
    using assms(2) by (auto simp: dirs_def)
  have o: "opposite \<lparr>x = - 1, y = 0\<rparr> (dir s)"
    using assms(1) by (simp add: opposite_def)
  have kd: "onKeyDown s e s = Inr s"
    using assms(2,3) k o by (simp add: onKeyDown_def)
  have ad: "appliedDir s \<noteq> \<lparr>x = - 1, y = 0\<rparr>"
    using assms(1) by (auto simp: appliedDir_def opposite_def)
  have "dir s' \<noteq> \<lparr>x = - 1, y = 0\<rparr>" if "step s s = Inr s'" for s'
    using step_dir [OF that] ad assms(1) by auto
  with o kd ad show ?thesis
    by blast
qed

lemma step_reversal0:
  "step reversal0 reversal0 =
     Inr (reversal0\<lparr>snake := [\<lparr>x = 13, y = 12\<rparr>, \<lparr>x = 12, y = 12\<rparr>, \<lparr>x = 11, y = 12\<rparr>]\<rparr>)"
  by (simp add: step_defs example_defs)

theorem reversal_rejected_witness:
  "nextDir reversal0 = \<lparr>x = - 1, y = 0\<rparr> \<and>
   onKeyDown reversal0 arrowLeft reversal0 = Inr reversal0 \<and>
   step reversal0 reversal0 =
     Inr (reversal0\<lparr>snake := [\<lparr>x = 13, y = 12\<rparr>, \<lparr>x = 12, y = 12\<rparr>, \<lparr>x = 11, y = 12\<rparr>]\<rparr>) \<and>
   dir (reversal0\<lparr>snake := [\<lparr>x = 13, y = 12\<rparr>, \<lparr>x = 12, y = 12\<rparr>, \<lparr>x = 11, y = 12\<rparr>]\<rparr>)
     \<noteq> \<lparr>x = - 1, y = 0\<rparr>"
proof -
  have h: "dir reversal0 = \<lparr>x = 1, y = 0\<rparr>"
    "dirs (key arrowLeft) = Some \<lparr>x = - 1, y = 0\<rparr>" "code arrowLeft \<noteq> ''Space''"
    by (simp_all add: example_defs dirs_def)
  from reversal_rejected [OF h] step_reversal0 show ?thesis
    by (simp add: example_defs)
qed

subsection \<open>Best score\<close>

lemma digit_char_ok: "d < 10 \<Longrightarrow> is_digit (digit_char d) \<and> digit_val (digit_char d) = d"
proof -
  assume "d < 10"
  then have "d \<in> {0, 1, 2, 3, 4, 5, 6, 7, 8, 9}" by auto
  then show ?thesis
    by (auto simp: digit_char_def is_digit_def digit_val_def)
qed

lemma decimal_snoc: "decimal (str @ [ch]) = 10 * decimal str + digit_val ch"
  by (simp add: decimal_def)

lemma digits_ok: "digits n \<noteq> [] \<and> list_all is_digit (digits n) \<and> decimal (digits n) = n"
proof (induction n rule: digits.induct)
  case (1 n)
  show ?case
  proof (cases "n < 10")
    case True
    then show ?thesis
      using digit_char_ok [of n] by (simp add: digits.simps [of n] decimal_def)
  next
    case False
    with 1 digit_char_ok [of "n mod 10"] show ?thesis
      by (simp add: digits.simps [of n] decimal_snoc)
  qed
qed

lemma Number_String: "0 \<le> n \<Longrightarrow> Number_js other (String_js n) = Some n"
  using digits_ok [of "nat n"] by (simp add: Number_js_def String_js_def)

lemma initBest_String:
  assumes "0 \<le> n"
  shows "initBest other (Some (String_js n)) = n"
proof -
  have "String_js n \<noteq> []"
    using assms digits_ok [of "nat n"] by (simp add: String_js_def)
  with assms show ?thesis
    by (simp add: initBest_def Number_String)
qed

lemma String_js_7: "String_js 7 = ''7''"
  by (simp add: String_js_def digits.simps digit_char_def)

text \<open>
  C10. For every integer \<open>n\<close> that is not negative, the string that \<open>endGame\<close> writes for
  \<open>n\<close>, \<open>String_js n\<close>, is read back by the initialiser of \<^verbatim>\<open>best\<close> as \<open>n\<close>, whatever
  \<^verbatim>\<open>Number\<close> makes of strings that are not decimal numerals.
\<close>

theorem best_roundtrip:
  "0 \<le> n \<Longrightarrow>
     initBest other (Some (String_js n)) = n \<and>
     (max (best s) finalScore = n \<longrightarrow> initBest other (storage (endGame finalScore s)) = n)"
  by (auto simp: initBest_String endGame_def Let_def)

theorem best_roundtrip_witness:
  "(0::int) \<le> 7 \<and> String_js 7 = ''7'' \<and> initBest (\<lambda>str. None) (Some ''7'') = 7 \<and>
   initBest (\<lambda>str. None) (storage (endGame 7 start0)) = 7"
proof -
  have h: "(0::int) \<le> 7" by simp
  have m: "max (best start0) 7 = 7"
    by (simp add: example_defs initBest_def)
  from best_roundtrip [OF h, of "\<lambda>str. None" start0 7] m h show ?thesis
    by (simp add: String_js_7)
qed

subsection \<open>The frame loop\<close>

lemma step_accRef: "step c s = Inr s' \<Longrightarrow> accRef s' = accRef s"
  by (auto simp: step_def commitDir_def endGame_def Let_def
      split: if_splits list.splits option.splits)

lemma whileTicks_below:
  "accRef s < real_of_int (tickMs c) \<Longrightarrow> whileTicks c s = Some (Inr s)"
  by (subst whileTicks.simps) simp

lemma whileTicks_error:
  "real_of_int (tickMs c) \<le> accRef s \<Longrightarrow> step c s = Inl e \<Longrightarrow> whileTicks c s = Some (Inl e)"
  by (subst whileTicks.simps) simp

lemma whileTicks_tick:
  "real_of_int (tickMs c) \<le> accRef s \<Longrightarrow> step c s = Inr s1 \<Longrightarrow>
   whileTicks c s = whileTicks c (s1\<lparr>accRef := accRef s - real_of_int (tickMs c)\<rparr>)"
  by (subst whileTicks.simps) (simp add: step_accRef)

lemma whileTicks_frame:
  assumes T: "0 < tickMs c"
  shows "\<exists>r. whileTicks c s = Some r \<and>
           (\<forall>s'. r = Inr s' \<longrightarrow>
              accRef s' < real_of_int (tickMs c) \<and>
              (\<exists>k::nat. accRef s' = accRef s - real k * real_of_int (tickMs c)) \<and>
              (accRef s < real_of_int (tickMs c) \<longrightarrow> s' = s) \<and>
              (0 \<le> accRef s \<longrightarrow> 0 \<le> accRef s'))"
proof (induction "nat \<lfloor>accRef s / real_of_int (tickMs c)\<rfloor>" arbitrary: s rule: less_induct)
  case less
  show ?case
  proof (cases "accRef s < real_of_int (tickMs c)")
    case True
    have "accRef s = accRef s - real 0 * real_of_int (tickMs c)" by simp
    with True show ?thesis
      by (auto simp: whileTicks_below)
  next
    case False
    then have ge: "real_of_int (tickMs c) \<le> accRef s" by simp
    show ?thesis
    proof (cases "step c s")
      case (Inl e)
      with ge show ?thesis
        by (simp add: whileTicks_error)
    next
      case (Inr s1)
      let ?t = "s1\<lparr>accRef := accRef s - real_of_int (tickMs c)\<rparr>"
      have w: "whileTicks c s = whileTicks c ?t"
        using ge Inr by (rule whileTicks_tick)
      have "\<lfloor>accRef ?t / real_of_int (tickMs c)\<rfloor> = \<lfloor>accRef s / real_of_int (tickMs c)\<rfloor> - 1"
        using T by (simp add: diff_divide_distrib)
      moreover have "1 \<le> \<lfloor>accRef s / real_of_int (tickMs c)\<rfloor>"
        using T ge by (simp add: le_floor_iff)
      ultimately
      have "nat \<lfloor>accRef ?t / real_of_int (tickMs c)\<rfloor> < nat \<lfloor>accRef s / real_of_int (tickMs c)\<rfloor>"
        by simp
      from less [OF this] obtain r where r: "whileTicks c ?t = Some r"
        and p: "\<forall>s'. r = Inr s' \<longrightarrow>
              accRef s' < real_of_int (tickMs c) \<and>
              (\<exists>k::nat. accRef s' = accRef ?t - real k * real_of_int (tickMs c)) \<and>
              (accRef ?t < real_of_int (tickMs c) \<longrightarrow> s' = ?t) \<and>
              (0 \<le> accRef ?t \<longrightarrow> 0 \<le> accRef s')"
        by blast
      have "\<exists>k::nat. accRef s' = accRef s - real k * real_of_int (tickMs c)"
        if "r = Inr s'" for s'
      proof -
        from p that obtain k :: nat
          where "accRef s' = accRef ?t - real k * real_of_int (tickMs c)"
          by blast
        then have "accRef s' = accRef s - real (Suc k) * real_of_int (tickMs c)"
          by (simp add: algebra_simps)
        then show ?thesis ..
      qed
      moreover have "0 \<le> accRef ?t"
        using ge T by simp
      ultimately show ?thesis
        using w r p ge by auto
    qed
  qed
qed


lemma whileTicks_spec_stop:
  "\<not> (real_of_int (tickMs s) \<le> accRef s \<and> \<not> paused s \<and> \<not> gameOver s) \<Longrightarrow>
   whileTicks_spec s = Some (Inr s)"
  by (subst whileTicks_spec.simps) auto

lemma whileTicks_spec_tick:
  "real_of_int (tickMs s) \<le> accRef s \<Longrightarrow> \<not> paused s \<Longrightarrow> \<not> gameOver s \<Longrightarrow>
   step s s = Inr s1 \<Longrightarrow>
   whileTicks_spec s = whileTicks_spec (s1\<lparr>accRef := accRef s1 - real_of_int (tickMs s1)\<rparr>)"
  by (subst whileTicks_spec.simps) simp

lemma loop_running:
  "\<not> paused c \<Longrightarrow> \<not> gameOver c \<Longrightarrow> lastRef s \<noteq> 0 \<Longrightarrow>
   loop c ts s =
     whileTicks c (s\<lparr>lastRef := ts, accRef := clamp (accRef s + (ts - lastRef s)) 0 1000\<rparr>)"
  by (simp add: loop_def Let_def)

lemma step_frame_in: "step frame_in frame0 = Inr (eat1\<lparr>lastRef := 1237, accRef := 237\<rparr>)"
  by (simp add: step_defs example_defs)

lemma step_frame0: "step frame0 frame0 = Inr (eat1\<lparr>lastRef := 1237, accRef := 237\<rparr>)"
  by (simp add: step_defs example_defs)

lemma step_frame1:
  "step (eat1\<lparr>lastRef := 1237, accRef := 120\<rparr>) (eat1\<lparr>lastRef := 1237, accRef := 120\<rparr>) =
     Inr (frame_spec\<lparr>accRef := 120\<rparr>)"
  by (simp add: step_defs example_defs)

lemma whileTicks_frame0: "whileTicks frame_in frame0 = Some (Inr frame_code)"
proof -
  have "whileTicks frame_in frame0 = whileTicks frame_in frame_code"
    using whileTicks_tick [OF _ step_frame_in] by (simp add: step_defs example_defs)
  also have "\<dots> = Some (Inr frame_code)"
    by (rule whileTicks_below) (simp add: step_defs example_defs)
  finally show ?thesis .
qed

lemma loop_frame_in: "loop frame_in 1237 frame_in = Some (Inr frame_code)"
proof -
  have "loop frame_in 1237 frame_in = whileTicks frame_in frame0"
    by (subst loop_running) (simp_all add: example_defs clamp_def)
  then show ?thesis
    by (simp add: whileTicks_frame0)
qed

lemma whileTicks_spec_frame0: "whileTicks_spec frame0 = Some (Inr frame_spec)"
proof -
  have "whileTicks_spec frame0 = whileTicks_spec (eat1\<lparr>lastRef := 1237, accRef := 120\<rparr>)"
    using whileTicks_spec_tick [OF _ _ _ step_frame0] by (simp add: step_defs example_defs)
  also have "\<dots> = whileTicks_spec frame_spec"
    using whileTicks_spec_tick [OF _ _ _ step_frame1] by (simp add: step_defs example_defs)
  also have "\<dots> = Some (Inr frame_spec)"
    by (rule whileTicks_spec_stop) (simp add: step_defs example_defs)
  finally show ?thesis .
qed

text \<open>
  C7, as amended. In a frame whose loop was registered by a render with a positive tick
  interval \<open>T\<close>, the \<^verbatim>\<open>while\<close> statement returns, and every iteration tests the
  accumulator against \<open>T\<close> and subtracts \<open>T\<close>: when the frame ends without an error the
  accumulator is below \<open>T\<close> and is the accumulator at the start minus a multiple of \<open>T\<close>,
  which is \<open>\<lfloor>acc / T\<rfloor>\<close> times \<open>T\<close> when the accumulator is not negative. The
  tick interval that a step of the frame stores on eating does not enter.
\<close>

theorem frame_uses_captured_interval:
  assumes "0 < tickMs c"
  shows "\<exists>r. whileTicks c s = Some r \<and>
           (\<forall>s'. r = Inr s' \<longrightarrow>
              accRef s' < real_of_int (tickMs c) \<and>
              (\<exists>k::nat. accRef s' = accRef s - real k * real_of_int (tickMs c)) \<and>
              (accRef s < real_of_int (tickMs c) \<longrightarrow> s' = s) \<and>
              (0 \<le> accRef s \<longrightarrow>
                 accRef s' =
                   accRef s - real_of_int (\<lfloor>accRef s / real_of_int (tickMs c)\<rfloor> * tickMs c)))"
proof -
  from whileTicks_frame [OF assms, of s] obtain r where r: "whileTicks c s = Some r"
    and p: "\<forall>s'. r = Inr s' \<longrightarrow>
              accRef s' < real_of_int (tickMs c) \<and>
              (\<exists>k::nat. accRef s' = accRef s - real k * real_of_int (tickMs c)) \<and>
              (accRef s < real_of_int (tickMs c) \<longrightarrow> s' = s) \<and>
              (0 \<le> accRef s \<longrightarrow> 0 \<le> accRef s')"
    by blast
  have "accRef s' = accRef s - real_of_int (\<lfloor>accRef s / real_of_int (tickMs c)\<rfloor> * tickMs c)"
    if "r = Inr s'" and "0 \<le> accRef s" for s'
  proof -
    from p that obtain k :: nat
      where k: "accRef s' = accRef s - real k * real_of_int (tickMs c)"
        and lt: "accRef s' < real_of_int (tickMs c)" and ge: "0 \<le> accRef s'"
      by blast
    have "accRef s / real_of_int (tickMs c) = real k + accRef s' / real_of_int (tickMs c)"
      using k assms by (simp add: field_simps)
    moreover have "0 \<le> accRef s' / real_of_int (tickMs c)"
      and "accRef s' / real_of_int (tickMs c) < 1"
      using lt ge assms by simp_all
    ultimately have "\<lfloor>accRef s / real_of_int (tickMs c)\<rfloor> = int k"
      by (simp add: floor_unique)
    with k show ?thesis
      by simp
  qed
  with r p show ?thesis
    by blast
qed

theorem frame_uses_captured_interval_witness:
  "0 < tickMs frame_in \<and> whileTicks frame_in frame0 = Some (Inr frame_code) \<and>
   accRef frame0 = 237 \<and> tickMs frame_in = 120 \<and> accRef frame_code = 237 - 1 * 120"
proof -
  have h: "0 < tickMs frame_in"
    by (simp add: step_defs example_defs)
  from frame_uses_captured_interval [OF h, of frame0] whileTicks_frame0 h show ?thesis
    by (simp add: step_defs example_defs)
qed

text \<open>
  C7 as stated fails: in a frame 237 ms after the previous one, with an empty accumulator,
  a tick interval of 120 ms and the food ahead, the first iteration eats and stores the
  interval 117 ms. The loop of the
  source subtracts 120 and ends, with 117 ms in the accumulator and 117 ms as the stored
  interval, after one step; a loop that reads the current interval in every iteration
  does a second step and ends with 3 ms.
\<close>

theorem frame_keeps_old_interval:
  "loop frame_in 1237 frame_in = Some (Inr frame_code) \<and>
   whileTicks frame_in frame0 = Some (Inr frame_code) \<and>
   whileTicks_spec frame0 = Some (Inr frame_spec) \<and>
   tickMs frame_in = 120 \<and> accRef frame0 = 237 \<and>
   tickMs frame_code = 117 \<and> accRef frame_code = 117 \<and>
   \<not> paused frame_code \<and> \<not> gameOver frame_code \<and>
   accRef frame_spec = 3 \<and> snake frame_code \<noteq> snake frame_spec"
  by (simp add: loop_frame_in whileTicks_frame0 whileTicks_spec_frame0)
    (simp add: step_defs example_defs)

subsection \<open>The best score across a run\<close>






lemma bestWrites_lastRef: "bestWrites n c s (s'\<lparr>lastRef := a\<rparr>) = bestWrites n c s s'"
  by (simp add: bestWrites_def)












lemma whileTicks_unfold:
  "real_of_int (tickMs c) \<le> accRef s \<Longrightarrow>
   whileTicks c s =
     (case step c s of
        Inl e \<Rightarrow> Some (Inl e)
      | Inr s' \<Rightarrow> whileTicks c (s'\<lparr>accRef := accRef s' - real_of_int (tickMs c)\<rparr>))"
  by (subst whileTicks.simps) simp


lemma frame_1000: "loop mounted7 1000 mounted7 = Some (Inr (mounted7\<lparr>lastRef := 1000\<rparr>))"
  by (simp add: loop_def clamp_def whileTicks_below step_defs example_defs)

lemma frame_2000:
  "loop (mounted7\<lparr>lastRef := 1000\<rparr>) 2000 (mounted7\<lparr>lastRef := 1000\<rparr>) =
     Some (Inr (mounted7\<lparr>snake := [\<lparr>x = 20, y = 12\<rparr>, \<lparr>x = 19, y = 12\<rparr>, \<lparr>x = 18, y = 12\<rparr>],
                  lastRef := 2000, accRef := 40\<rparr>))"
  by (simp add: loop_def clamp_def whileTicks_unfold whileTicks_below step_defs example_defs)

lemma frame_2500:
  "loop (mounted7\<lparr>snake := [\<lparr>x = 20, y = 12\<rparr>, \<lparr>x = 19, y = 12\<rparr>, \<lparr>x = 18, y = 12\<rparr>],
                  lastRef := 2000, accRef := 40\<rparr>) 2500
        (mounted7\<lparr>snake := [\<lparr>x = 20, y = 12\<rparr>, \<lparr>x = 19, y = 12\<rparr>, \<lparr>x = 18, y = 12\<rparr>],
                  lastRef := 2000, accRef := 40\<rparr>) = Some (Inr over7)"
  by (simp add: loop_def clamp_def whileTicks_unfold whileTicks_below step_defs example_defs
      String_js_def digits.simps digit_char_def)

lemma run_over7: "run [Frame 1000, Frame 2000, Frame 2500] mounted7 = Some (Inr over7)"
  by (simp add: frame_1000 frame_2000 frame_2500)







end
